theory Spec2Isabelle
  imports Complex_Main "HOL-Library.Word"
begin

section \<open>The PVDisplayView widget of ipyparaview (js/lib/widgets.js)\<close>

text \<open>
  The widget view keeps a camera in spherical coordinates around a focal point, turns
  mouse and wheel events into camera updates, publishes the camera at a throttled rate
  and paints every frame it receives into a canvas.

  JavaScript numbers are IEEE doubles. They are modelled here as the real numbers: the
  theorems below are about the arithmetic the code writes down, computed exactly. A
  division by zero, which yields \<open>Infinity\<close> or \<open>NaN\<close> in JavaScript, has no
  counterpart among the reals; every theorem whose truth depends on such a quotient
  excludes the zero divisor by a hypothesis. The elevation of the camera, which the source
  can set to \<open>NaN\<close>, is modelled over JavaScript numbers as well, in a section of its
  own.
\<close>

subsection \<open>Vector utilities (widgets.js, lines 35-68)\<close>

text \<open>A three-element JavaScript array \<open>[x[0], x[1], x[2]]\<close>.\<close>

type_synonym vec3 = "real \<times> real \<times> real"

fun v0 :: "vec3 \<Rightarrow> real" where
  "v0 (a, b, c) = a"

fun v1 :: "vec3 \<Rightarrow> real" where
  "v1 (a, b, c) = b"

fun v2 :: "vec3 \<Rightarrow> real" where
  "v2 (a, b, c) = c"

definition norm_v :: "vec3 \<Rightarrow> real" where
  "norm_v x = sqrt (v0 x * v0 x + v1 x * v1 x + v2 x * v2 x)"

definition normalize_v :: "vec3 \<Rightarrow> vec3" where
  "normalize_v x = (let r = norm_v x in (v0 x / r, v1 x / r, v2 x / r))"

definition cross :: "vec3 \<Rightarrow> vec3 \<Rightarrow> vec3" where
  "cross x y = (v1 x * v2 y - v2 x * v1 y,
                v2 x * v0 y - v0 x * v2 y,
                v0 x * v1 y - v1 x * v0 y)"

text \<open>
  \<open>Math.atan2(y, x)\<close> over the reals: the angle in \<open>(-pi, pi]\<close> of the point
  \<open>(x, y)\<close>, and \<open>0\<close> at the origin. (The signed zeros of IEEE arithmetic, which
  select between \<open>pi\<close> and \<open>-pi\<close> on the negative x axis, are not represented.)
\<close>

definition atan2 :: "real \<Rightarrow> real \<Rightarrow> real" where
  "atan2 y x =
     (if 0 < x then arctan (y / x)
      else if x < 0 then (if 0 \<le> y then arctan (y / x) + pi else arctan (y / x) - pi)
      else if 0 < y then pi / 2
      else if y < 0 then - (pi / 2)
      else 0)"

text \<open>
  At the zero vector the source computes \<open>Math.asin(0/0)\<close>, which is \<open>NaN\<close>; the
  definition over the reals is the source's for every other vector (\<open>js_elevation\<close>
  below is the third component with \<open>NaN\<close>).
\<close>

definition cartToSphr :: "vec3 \<Rightarrow> vec3" where
  "cartToSphr x = (let r = norm_v x in (r, atan2 (v0 x) (v2 x), arcsin (v1 x / r)))"

definition sphrToCart :: "vec3 \<Rightarrow> vec3" where
  "sphrToCart x = (v0 x * sin (v1 x) * cos (v2 x),
                   v0 x * sin (v2 x),
                   v0 x * cos (v1 x) * cos (v2 x))"

definition vadd :: "vec3 \<Rightarrow> vec3 \<Rightarrow> vec3" where
  "vadd x y = (v0 x + v0 y, v1 x + v1 y, v2 x + v2 y)"

definition vscl :: "vec3 \<Rightarrow> real \<Rightarrow> vec3" where
  "vscl x y = (v0 x * y, v1 x * y, v2 x * y)"

subsection \<open>The widget model and the state of the view\<close>

type_synonym byte = "8 word"

text \<open>The synchronised attributes of the widget model that the view reads and writes.\<close>

record pv_model =
  camp :: vec3
  camf :: vec3
  camu :: vec3
  resolution :: "nat \<times> nat"
  frame :: "byte list"

text \<open>The object \<open>{x: mx, y: my}\<close> that \<open>getNDC\<close> returns.\<close>

record ndc =
  ndc_x :: real
  ndc_y :: real

text \<open>What \<open>canvas.getBoundingClientRect()\<close> returns when an event is handled.\<close>

record dom_rect =
  rect_left :: real
  rect_right :: real
  rect_top :: real
  rect_bottom :: real

record mouse_event =
  clientX :: real
  clientY :: real

text \<open>
  A wheel event carries \<open>wheelDelta\<close> or \<open>detail\<close>, depending on the browser; a property
  that the event does not have (\<open>undefined\<close>) is \<open>None\<close>.
\<close>

record wheel_event =
  wheelDelta :: "real option"
  detail :: "real option"

text \<open>
  One publication: what \<open>model.save_changes()\<close> synchronises and the \<open>updateCam\<close>
  message that \<open>view.send\<close> emits with it. \<open>pub_time\<close> is the clock reading of the
  call that published; it is kept in the log so that the timing can be stated.
\<close>

record publication =
  pub_time :: int
  pub_camp :: vec3
  pub_camf :: vec3

text \<open>
  The state of one view: the variables that \<open>render\<close> sets up and its handlers share
  (\<open>cf\<close>, \<open>cp\<close> and \<open>cu\<close>, which the source assigns without declaring them, and
  \<open>m0\<close> and \<open>lastMouseT\<close> of its closure), the model, the canvas with the image last
  painted into it, and the log of publications. \<open>cp\<close> is the spherical offset
  \<open>[radius, azimuth, elevation]\<close> of the camera from the focal point \<open>cf\<close>.
\<close>

record view =
  model :: pv_model
  cf :: vec3
  cp :: vec3
  cu :: vec3
  m0 :: ndc
  lastMouseT :: int
  canvas_width :: nat
  canvas_height :: nat
  canvas_image :: "byte list"
  published :: "publication list"

subsection \<open>Painting a frame (lines 92-101 and 199-211)\<close>

datatype dom_error = IndexSizeError

text \<open>
  \<open>ctx.createImageData(w, h)\<close>: transparent black, four bytes a pixel; the DOM throws
  \<open>IndexSizeError\<close> when either size is zero.
\<close>

definition createImageData :: "nat \<Rightarrow> nat \<Rightarrow> dom_error + byte list" where
  "createImageData w h =
     (if w = 0 \<or> h = 0 then Inl IndexSizeError else Inr (replicate (w * h * 4) 0))"

text \<open>
  Reading \<open>frame[i]\<close> from the \<open>Uint8Array\<close>: past the end the read gives
  \<open>undefined\<close>, which the \<open>Uint8ClampedArray\<close> of the image stores as \<open>0\<close>.
\<close>

definition frame_at :: "byte list \<Rightarrow> nat \<Rightarrow> byte" where
  "frame_at fr i = (if i < length fr then fr ! i else 0)"

text \<open>
  The loop \<open>for(i=0; i<imgData.data.length; i+=4)\<close>, which \<open>render\<close> and
  \<open>frameChange\<close> both contain with the same body. A write past the end of a typed array
  is ignored, as \<open>list_update\<close> ignores it.
\<close>

function copyPixels :: "byte list \<Rightarrow> nat \<Rightarrow> byte list \<Rightarrow> byte list" where
  "copyPixels fr i data =
     (if i < length data
      then copyPixels fr (i + 4)
             (data[i + 0 := frame_at fr (i + 0),
                   i + 1 := frame_at fr (i + 1),
                   i + 2 := frame_at fr (i + 2),
                   i + 3 := 255])
      else data)"
  by pat_completeness auto
termination
  by (relation "measure (\<lambda>(fr, i, data). length data - i)") auto

declare copyPixels.simps [simp del]

text \<open>
  The image \<open>img\<close> of \<open>n\<close> pixels is what the loop makes of the buffer \<open>fr\<close>:
  red, green and blue of pixel \<open>i\<close> are read at \<open>4i\<close>, \<open>4i+1\<close>, \<open>4i+2\<close>, and
  alpha is \<open>255\<close>.
\<close>

definition painted :: "byte list \<Rightarrow> nat \<Rightarrow> byte list \<Rightarrow> bool" where
  "painted fr n img \<longleftrightarrow>
     length img = n * 4 \<and>
     (\<forall>i<n. img ! (4 * i) = frame_at fr (4 * i) \<and>
            img ! (4 * i + 1) = frame_at fr (4 * i + 1) \<and>
            img ! (4 * i + 2) = frame_at fr (4 * i + 2) \<and>
            img ! (4 * i + 3) = 255)"

text \<open>
  The image \<open>img\<close> of \<open>n\<close> pixels shows the bytes of the buffer \<open>fr\<close> themselves,
  with every pixel opaque.
\<close>

definition opaque_copy :: "byte list \<Rightarrow> nat \<Rightarrow> byte list \<Rightarrow> bool" where
  "opaque_copy fr n img \<longleftrightarrow>
     length img = n * 4 \<and>
     (\<forall>i<n. img ! (4 * i) = fr ! (4 * i) \<and>
            img ! (4 * i + 1) = fr ! (4 * i + 1) \<and>
            img ! (4 * i + 2) = fr ! (4 * i + 2) \<and>
            img ! (4 * i + 3) = 255)"

definition frameChange :: "view \<Rightarrow> dom_error + view" where
  "frameChange st =
     (case createImageData (canvas_width st) (canvas_height st) of
        Inl err \<Rightarrow> Inl err
      | Inr imgData \<Rightarrow> Inr (st\<lparr>canvas_image := copyPixels (frame (model st)) 0 imgData\<rparr>))"

subsection \<open>Pointer coordinates (lines 103-121)\<close>

definition getNDC :: "dom_rect \<Rightarrow> mouse_event \<Rightarrow> ndc" where
  "getNDC rect e =
     (let mx = (clientX e - rect_left rect) / (rect_right rect - rect_left rect);
          my = (clientY e - rect_top rect) / (rect_top rect - rect_bottom rect)
      in \<lparr>ndc_x = mx, ndc_y = my\<rparr>)"

definition getMouseDelta :: "dom_rect \<Rightarrow> mouse_event \<Rightarrow> view \<Rightarrow> ndc \<times> view" where
  "getMouseDelta rect e st =
     (let m1 = getNDC rect e;
          md = \<lparr>ndc_x = ndc_x m1 - ndc_x (m0 st), ndc_y = ndc_y m1 - ndc_y (m0 st)\<rparr>
      in (md, st\<lparr>m0 := m1\<rparr>))"

subsection \<open>Throttled publication (lines 123-134)\<close>

definition throttlems :: real where
  "throttlems = 1000.0 / 20.0"

text \<open>\<open>mt\<close> is the value that \<open>Date.now()\<close> returns inside the call (milliseconds).\<close>

definition updateCam :: "int \<Rightarrow> view \<Rightarrow> view" where
  "updateCam mt st =
     (if real_of_int (mt - lastMouseT st) > throttlems
      then
        let st1 = st\<lparr>model := (model st)\<lparr>camp := vadd (sphrToCart (cp st)) (cf st),
                                             camf := cf st\<rparr>\<rparr>;
            st2 = st1\<lparr>published := published st1 @
                     [\<lparr>pub_time = mt, pub_camp = camp (model st1), pub_camf = camf (model st1)\<rparr>]\<rparr>
        in st2\<lparr>lastMouseT := mt\<rparr>
      else st)"

subsection \<open>Mouse and wheel handlers (lines 137-176)\<close>

definition phiLim :: real where
  "phiLim = 1.5175"

text \<open>
  Orbit: the two assignments to \<open>cp[1]\<close> and \<open>cp[2]\<close> in \<open>handleDrag\<close>, for the mouse
  delta \<open>md\<close>, on numbers (\<open>handleDrag_y\<close> below is the assignment to \<open>cp[2]\<close> with
  \<open>NaN\<close> and the infinities).
\<close>

definition orbit :: "ndc \<Rightarrow> view \<Rightarrow> view" where
  "orbit md st =
     (let p = cp st;
          p1 = (v0 p, v1 p - 5.0 * ndc_x md, v2 p);
          p2 = (v0 p1, v1 p1, max (- phiLim) (min phiLim (v2 p1 - 5.0 * ndc_y md)))
      in st\<lparr>cp := p2\<rparr>)"

definition handleDrag :: "int \<Rightarrow> dom_rect \<Rightarrow> mouse_event \<Rightarrow> view \<Rightarrow> view" where
  "handleDrag now rect e st =
     (let (md, st1) = getMouseDelta rect e st
      in updateCam now (orbit md st1))"

definition pan_scl :: real where
  "pan_scl = 1.0 / 1.25"

text \<open>Pan: the body of \<open>handleMidDrag\<close> between the mouse delta and \<open>updateCam\<close>.\<close>

definition pan :: "ndc \<Rightarrow> view \<Rightarrow> view" where
  "pan md st =
     (let ccp = sphrToCart (cp st);
          h = normalize_v (cross ccp (cu st));
          v = normalize_v (cross ccp h);
          d = vscl (vadd (vscl h (ndc_x md)) (vscl v (ndc_y md))) (v0 (cp st) * pan_scl)
      in st\<lparr>cf := vadd (cf st) d\<rparr>)"

definition handleMidDrag :: "int \<Rightarrow> dom_rect \<Rightarrow> mouse_event \<Rightarrow> view \<Rightarrow> view" where
  "handleMidDrag now rect e st =
     (let (md, st1) = getMouseDelta rect e st
      in updateCam now (pan md st1))"

definition wheelScl :: real where
  "wheelScl = 40.0"

definition dScl :: real where
  "dScl = 0.05"

definition rlim :: real where
  "rlim = 0.00001"

text \<open>
  \<open>e.wheelDelta ? e.wheelDelta/wheelScl : e.detail ? -e.detail : 0\<close>: a number is
  truthy when it is not zero, \<open>undefined\<close> is falsy.
\<close>

definition scroll_d :: "wheel_event \<Rightarrow> real" where
  "scroll_d e =
     (case wheelDelta e of
        Some w \<Rightarrow>
          if w \<noteq> 0 then w / wheelScl
          else (case detail e of Some k \<Rightarrow> if k \<noteq> 0 then - k else 0 | None \<Rightarrow> 0)
      | None \<Rightarrow> (case detail e of Some k \<Rightarrow> if k \<noteq> 0 then - k else 0 | None \<Rightarrow> 0))"

text \<open>Dolly: the assignment to \<open>cp[0]\<close> in \<open>handleScroll\<close>.\<close>

definition dolly :: "real \<Rightarrow> view \<Rightarrow> view" where
  "dolly d st =
     (let p = cp st
      in st\<lparr>cp := (max rlim (v0 p * (1.0 - dScl * d)), v1 p, v2 p)\<rparr>)"

definition handleScroll :: "int \<Rightarrow> wheel_event \<Rightarrow> view \<Rightarrow> view" where
  "handleScroll now e st =
     (let d = scroll_d e
      in if d \<noteq> 0 then updateCam now (dolly d st) else st)"

text \<open>
  The \<open>mousedown\<close> listener stores the pointer position; it also registers
  \<open>handleDrag\<close> or \<open>handleMidDrag\<close> for \<open>mousemove\<close>, by the button pressed, which
  decides the handler that later events call and changes nothing in the state below.
\<close>

definition mousedown :: "dom_rect \<Rightarrow> mouse_event \<Rightarrow> view \<Rightarrow> view" where
  "mousedown rect e st = st\<lparr>m0 := getNDC rect e\<rparr>"

subsection \<open>Construction (lines 85-103 and 125)\<close>

text \<open>
  \<open>render\<close> reads the model, paints the first frame and starts the throttle clock at
  \<open>t0\<close>, the value of \<open>Date.now()\<close> at that moment.
\<close>

definition render :: "pv_model \<Rightarrow> int \<Rightarrow> dom_error + view" where
  "render m t0 =
     (let f = camf m;
          p = cartToSphr (vadd (camp m) (vscl f (- 1.0)));
          u = camu m;
          (w, h) = resolution m
      in case createImageData w h of
           Inl err \<Rightarrow> Inl err
         | Inr imgData \<Rightarrow>
             Inr \<lparr>model = m, cf = f, cp = p, cu = u,
                  m0 = \<lparr>ndc_x = 0.0, ndc_y = 0.0\<rparr>,
                  lastMouseT = t0,
                  canvas_width = w, canvas_height = h,
                  canvas_image = copyPixels (frame m) 0 imgData,
                  published = []\<rparr>)"

subsection \<open>The elevation in JavaScript numbers (lines 54, 86, 111, 118 and 145)\<close>

text \<open>
  The elevation \<open>cp[2]\<close> is the one variable of the view that the source can set to
  \<open>NaN\<close> on ordinary input: \<open>render\<close> computes it as \<open>Math.asin(x[1]/r)\<close>, and
  \<open>r\<close> is zero when the camera position equals the focal point. The path from
  \<open>render\<close> through \<open>handleDrag\<close> to the elevation is therefore modelled a second
  time, over JavaScript numbers: a finite number (a real, computed exactly), the two
  infinities, or \<open>NaN\<close>.
\<close>

datatype jsnum = Num real | PosInf | NegInf | NaN

text \<open>What a non-zero number divided by \<open>+0\<close>, or multiplied by \<open>Infinity\<close>, gives by its sign.\<close>

definition inf_of :: "real \<Rightarrow> jsnum" where
  "inf_of a = (if 0 < a then PosInf else if a < 0 then NegInf else NaN)"

text \<open>
  The quotient \<open>a/b\<close> of two finite numbers. A zero divisor is \<open>+0\<close>, as the two
  divisors of this path are when they are zero: \<open>Math.sqrt\<close> of \<open>0\<close> and a
  difference \<open>t - t\<close>.
\<close>

definition js_div :: "real \<Rightarrow> real \<Rightarrow> jsnum" where
  "js_div a b = (if b \<noteq> 0 then Num (a / b) else inf_of a)"

text \<open>\<open>a - b\<close> and \<open>a * b\<close> on JavaScript numbers.\<close>

fun js_sub :: "jsnum \<Rightarrow> jsnum \<Rightarrow> jsnum" where
  "js_sub NaN b = NaN"
| "js_sub a NaN = NaN"
| "js_sub (Num a) (Num b) = Num (a - b)"
| "js_sub (Num a) PosInf = NegInf"
| "js_sub (Num a) NegInf = PosInf"
| "js_sub PosInf (Num b) = PosInf"
| "js_sub PosInf PosInf = NaN"
| "js_sub PosInf NegInf = PosInf"
| "js_sub NegInf (Num b) = NegInf"
| "js_sub NegInf PosInf = NegInf"
| "js_sub NegInf NegInf = NaN"

fun js_mul :: "jsnum \<Rightarrow> jsnum \<Rightarrow> jsnum" where
  "js_mul NaN b = NaN"
| "js_mul a NaN = NaN"
| "js_mul (Num a) (Num b) = Num (a * b)"
| "js_mul (Num a) PosInf = inf_of a"
| "js_mul (Num a) NegInf = inf_of (- a)"
| "js_mul PosInf (Num b) = inf_of b"
| "js_mul NegInf (Num b) = inf_of (- b)"
| "js_mul PosInf PosInf = PosInf"
| "js_mul PosInf NegInf = NegInf"
| "js_mul NegInf PosInf = NegInf"
| "js_mul NegInf NegInf = PosInf"

text \<open>\<open>Math.min\<close> and \<open>Math.max\<close> of two arguments: \<open>NaN\<close> when either is \<open>NaN\<close>.\<close>

fun js_min :: "jsnum \<Rightarrow> jsnum \<Rightarrow> jsnum" where
  "js_min NaN b = NaN"
| "js_min a NaN = NaN"
| "js_min NegInf b = NegInf"
| "js_min a NegInf = NegInf"
| "js_min PosInf b = b"
| "js_min a PosInf = a"
| "js_min (Num a) (Num b) = Num (min a b)"

fun js_max :: "jsnum \<Rightarrow> jsnum \<Rightarrow> jsnum" where
  "js_max NaN b = NaN"
| "js_max a NaN = NaN"
| "js_max PosInf b = PosInf"
| "js_max a PosInf = PosInf"
| "js_max NegInf b = b"
| "js_max a NegInf = a"
| "js_max (Num a) (Num b) = Num (max a b)"

text \<open>\<open>Math.asin\<close>: \<open>NaN\<close> outside \<open>[-1, 1]\<close>.\<close>

fun js_asin :: "jsnum \<Rightarrow> jsnum" where
  "js_asin (Num a) = (if - 1 \<le> a \<and> a \<le> 1 then Num (arcsin a) else NaN)"
| "js_asin a = NaN"

text \<open>The third component of \<open>cartToSphr(x)\<close>, line 54.\<close>

definition js_elevation :: "vec3 \<Rightarrow> jsnum" where
  "js_elevation x = (let r = norm_v x in js_asin (js_div (v1 x) r))"

text \<open>The elevation that \<open>render\<close> stores in \<open>cp[2]\<close>, line 86.\<close>

definition render_elevation :: "pv_model \<Rightarrow> jsnum" where
  "render_elevation m = js_elevation (vadd (camp m) (vscl (camf m) (- 1.0)))"

text \<open>The two variables that the elevation depends on: \<open>cp[2]\<close> and \<open>m0.y\<close>.\<close>

record drag_y =
  cp_2 :: jsnum
  m0_y :: jsnum

definition render_y :: "pv_model \<Rightarrow> drag_y" where
  "render_y m = \<lparr>cp_2 = render_elevation m, m0_y = Num 0.0\<rparr>"

text \<open>The \<open>y\<close> of \<open>getNDC\<close>, line 111; the event and the rectangle hold finite numbers.\<close>

definition getNDC_y :: "dom_rect \<Rightarrow> mouse_event \<Rightarrow> jsnum" where
  "getNDC_y rect e = js_div (clientY e - rect_top rect) (rect_top rect - rect_bottom rect)"

text \<open>
  What \<open>handleDrag\<close> does to the two variables: the \<open>y\<close> of \<open>getMouseDelta\<close>
  (lines 117-119) and the assignment to \<open>cp[2]\<close> (line 145).
\<close>

definition handleDrag_y :: "dom_rect \<Rightarrow> mouse_event \<Rightarrow> drag_y \<Rightarrow> drag_y" where
  "handleDrag_y rect e s =
     (let m1y = getNDC_y rect e;
          mdy = js_sub m1y (m0_y s)
      in \<lparr>cp_2 = js_max (Num (- phiLim)) (js_min (Num phiLim) (js_sub (cp_2 s) (js_mul (Num 5.0) mdy))),
          m0_y = m1y\<rparr>)"

text \<open>The \<open>mousedown\<close> listener on the two variables: \<open>m0 = getNDC(e)\<close>.\<close>

definition mousedown_y :: "dom_rect \<Rightarrow> mouse_event \<Rightarrow> drag_y \<Rightarrow> drag_y" where
  "mousedown_y rect e s = s\<lparr>m0_y := getNDC_y rect e\<rparr>"

text \<open>The elevation is a number between \<open>-phiLim\<close> and \<open>phiLim\<close>.\<close>

fun within_limits :: "jsnum \<Rightarrow> bool" where
  "within_limits (Num a) = (- phiLim \<le> a \<and> a \<le> phiLim)"
| "within_limits a = False"

subsection \<open>Sequences of handler calls\<close>

text \<open>
  The browser calls the handlers one at a time, each to completion. A run is any finite
  sequence of such calls, each with the bounding rectangle and the clock reading it
  observes; the sequences that the listeners registered on \<open>mousedown\<close> and removed on
  \<open>mouseup\<close> can produce are among them, and nothing is assumed of the clock.
\<close>

datatype call =
    MouseDown dom_rect mouse_event
  | Drag int dom_rect mouse_event
  | MidDrag int dom_rect mouse_event
  | Scroll int wheel_event

fun handle :: "call \<Rightarrow> view \<Rightarrow> view" where
  "handle (MouseDown rect e) st = mousedown rect e st"
| "handle (Drag now rect e) st = handleDrag now rect e st"
| "handle (MidDrag now rect e) st = handleMidDrag now rect e st"
| "handle (Scroll now e) st = handleScroll now e st"

fun run :: "call list \<Rightarrow> view \<Rightarrow> view" where
  "run [] st = st"
| "run (c # cs) st = run cs (handle c st)"

text \<open>
  The clock reading of the call when it reaches \<open>updateCam\<close>: \<open>mousedown\<close> never does,
  and \<open>handleScroll\<close> only for a wheel delta that is not zero.
\<close>

fun attempt :: "call \<Rightarrow> int option" where
  "attempt (MouseDown rect e) = None"
| "attempt (Drag now rect e) = Some now"
| "attempt (MidDrag now rect e) = Some now"
| "attempt (Scroll now e) = (if scroll_d e \<noteq> 0 then Some now else None)"

text \<open>The change that a call makes to the camera and the pointer, before any publication.\<close>

fun local_update :: "call \<Rightarrow> view \<Rightarrow> view" where
  "local_update (MouseDown rect e) st = mousedown rect e st"
| "local_update (Drag now rect e) st = (let (md, st1) = getMouseDelta rect e st in orbit md st1)"
| "local_update (MidDrag now rect e) st = (let (md, st1) = getMouseDelta rect e st in pan md st1)"
| "local_update (Scroll now e) st = (if scroll_d e \<noteq> 0 then dolly (scroll_d e) st else st)"

text \<open>The publication that the state \<open>st\<close> gives rise to at clock reading \<open>t\<close>.\<close>

definition publication_of :: "int \<Rightarrow> view \<Rightarrow> publication" where
  "publication_of t st =
     \<lparr>pub_time = t, pub_camp = vadd (sphrToCart (cp st)) (cf st), pub_camf = cf st\<rparr>"

text \<open>A sequence of Orbit steps, one for each mouse delta of the list.\<close>

fun orbits :: "ndc list \<Rightarrow> view \<Rightarrow> view" where
  "orbits [] st = st"
| "orbits (md # mds) st = orbits mds (orbit md st)"

text \<open>
  The clamp of the elevation stays idle through the whole sequence: every elevation
  that a step computes is within the limits before \<open>Math.max\<close> and \<open>Math.min\<close>
  are applied to it.
\<close>

fun unclamped :: "ndc list \<Rightarrow> view \<Rightarrow> bool" where
  "unclamped [] st = True"
| "unclamped (md # mds) st =
     (- phiLim \<le> v2 (cp st) - 5.0 * ndc_y md \<and> v2 (cp st) - 5.0 * ndc_y md \<le> phiLim \<and>
      unclamped mds (orbit md st))"

text \<open>The mouse deltas that a sequence of \<open>handleDrag\<close> calls computes, one after the other.\<close>

fun drag_deltas :: "(int \<times> dom_rect \<times> mouse_event) list \<Rightarrow> view \<Rightarrow> ndc list" where
  "drag_deltas [] st = []"
| "drag_deltas ((now, rect, e) # ds) st =
     fst (getMouseDelta rect e st) # drag_deltas ds (handleDrag now rect e st)"

text \<open>The local updates of a run, with every call to \<open>updateCam\<close> left out.\<close>

fun locals :: "call list \<Rightarrow> view \<Rightarrow> view" where
  "locals [] st = st"
| "locals (c # cs) st = locals cs (local_update c st)"

text \<open>Clock readings in which each is more than the throttle interval after the one before.\<close>

fun spaced :: "int list \<Rightarrow> bool" where
  "spaced [] = True"
| "spaced [t] = True"
| "spaced (t # u # ts) = (throttlems < real_of_int (u - t) \<and> spaced (u # ts))"

text \<open>
  The log of publications is spaced, and once something has been published the throttle
  clock holds the time of the last publication.
\<close>

definition throttle_inv :: "view \<Rightarrow> bool" where
  "throttle_inv st \<longleftrightarrow>
     spaced (map pub_time (published st)) \<and>
     (published st \<noteq> [] \<longrightarrow> lastMouseT st = pub_time (last (published st)))"

subsection \<open>Sample values\<close>

definition sample_model :: pv_model where
  "sample_model = \<lparr>camp = (0, 0, 1), camf = (0, 0, 0), camu = (0, 1, 0),
                    resolution = (1, 1), frame = [1, 2, 3, 4]\<rparr>"

text \<open>A view of a one-pixel canvas whose spherical offset is \<open>p\<close>.\<close>

definition sample_view :: "vec3 \<Rightarrow> view" where
  "sample_view p = \<lparr>model = sample_model, cf = (0, 0, 0), cp = p, cu = (0, 1, 0),
                     m0 = \<lparr>ndc_x = 0, ndc_y = 0\<rparr>, lastMouseT = 0,
                     canvas_width = 1, canvas_height = 1, canvas_image = [1, 2, 3, 255],
                     published = []\<rparr>"

text \<open>The same view when the frame \<open>fr\<close> has arrived in the model.\<close>

definition view_with_frame :: "byte list \<Rightarrow> view" where
  "view_with_frame fr = (sample_view (1, 0, 0))\<lparr>model := sample_model\<lparr>frame := fr\<rparr>\<rparr>"

definition sample_rect :: dom_rect where
  "sample_rect = \<lparr>rect_left = 0, rect_right = 100, rect_top = 0, rect_bottom = 100\<rparr>"

definition mouse_at :: "real \<Rightarrow> real \<Rightarrow> mouse_event" where
  "mouse_at cx cy = \<lparr>clientX = cx, clientY = cy\<rparr>"

definition wheel_of :: "real \<Rightarrow> wheel_event" where
  "wheel_of w = \<lparr>wheelDelta = Some w, detail = None\<rparr>"

text \<open>A model whose camera position is its focal point.\<close>

definition degenerate_model :: pv_model where
  "degenerate_model = sample_model\<lparr>camp := (1, 2, 3), camf := (1, 2, 3)\<rparr>"

text \<open>
  A view whose focal point is not the origin, and three wheel events of one notch each,
  the second of them within the throttle interval of the first.
\<close>

definition zooms :: "call list" where
  "zooms = [Scroll 100 (wheel_of 40), Scroll 120 (wheel_of 40), Scroll 200 (wheel_of 40)]"

definition off_centre_view :: view where
  "off_centre_view = (sample_view (2, pi / 2, 0))\<lparr>cf := (1, 2, 3)\<rparr>"

section \<open>Properties\<close>

subsection \<open>Spherical coordinates\<close>

lemma planar_polar:
  fixes x z :: real
  defines "rho \<equiv> sqrt (x * x + z * z)"
  shows "rho * sin (atan2 x z) = x" and "rho * cos (atan2 x z) = z"
proof -
  have rho_nonneg: "0 \<le> rho"
    by (simp add: rho_def)
  have rho_sq: "rho * rho = x * x + z * z"
    by (simp add: rho_def)
  consider (pos) "0 < z" | (neg) "z < 0" | (zero) "z = 0"
    by linarith
  then have "rho * sin (atan2 x z) = x \<and> rho * cos (atan2 x z) = z"
  proof cases
    case pos
    have s: "sqrt (1 + (x / z)\<^sup>2) = rho / z"
    proof -
      have "1 + (x / z)\<^sup>2 = (x * x + z * z) / (z * z)"
        using pos by (simp add: power2_eq_square field_simps)
      then have "sqrt (1 + (x / z)\<^sup>2) = sqrt (x * x + z * z) / sqrt (z * z)"
        by (simp add: real_sqrt_divide)
      then show ?thesis
        using pos by (simp add: rho_def)
    qed
    have rho_pos: "0 < rho"
      using pos rho_nonneg rho_sq
      by (metis add_nonneg_pos less_eq_real_def mult_pos_pos mult_zero_left not_less zero_le_square)
    show ?thesis
      using pos rho_pos by (simp add: atan2_def sin_arctan cos_arctan s)
  next
    case neg
    have s: "sqrt (1 + (x / z)\<^sup>2) = rho / (- z)"
    proof -
      have "1 + (x / z)\<^sup>2 = (x * x + z * z) / (z * z)"
        using neg by (simp add: power2_eq_square field_simps)
      then have "sqrt (1 + (x / z)\<^sup>2) = sqrt (x * x + z * z) / sqrt (z * z)"
        by (simp add: real_sqrt_divide)
      then show ?thesis
        using neg by (simp add: rho_def)
    qed
    have rho_pos: "0 < rho"
      using neg rho_nonneg rho_sq
      by (metis add_nonneg_pos less_eq_real_def mult_neg_neg mult_zero_left not_less zero_le_square)
    show ?thesis
      using neg rho_pos by (simp add: atan2_def sin_arctan cos_arctan s)
  next
    case zero
    then have "rho = \<bar>x\<bar>"
      by (simp add: rho_def)
    then show ?thesis
      using zero by (simp add: atan2_def)
  qed
  then show "rho * sin (atan2 x z) = x" and "rho * cos (atan2 x z) = z"
    by simp_all
qed

lemma radial_cos:
  fixes x y z :: real
  assumes nz: "(x, y, z) \<noteq> (0, 0, 0)"
  defines "r \<equiv> sqrt (x * x + y * y + z * z)"
  shows "0 < r" and "r * sin (arcsin (y / r)) = y"
    and "r * cos (arcsin (y / r)) = sqrt (x * x + z * z)"
proof -
  have "x * x + y * y + z * z \<noteq> 0"
    using nz by (simp add: add_nonneg_eq_0_iff)
  moreover have "0 \<le> x * x + y * y + z * z"
    by simp
  ultimately have sq: "0 < x * x + y * y + z * z"
    by linarith
  then show rpos: "0 < r"
    by (simp add: r_def)
  have rr: "r * r = x * x + y * y + z * z"
    using sq by (simp add: r_def)
  have "y * y \<le> r * r"
    by (simp add: rr)
  then have "\<bar>y\<bar> \<le> r"
    using rpos by (metis abs_le_square_iff abs_of_pos power2_eq_square)
  then have bnd: "- 1 \<le> y / r" "y / r \<le> 1"
    using rpos by (auto simp: field_simps abs_le_iff)
  show "r * sin (arcsin (y / r)) = y"
    using bnd rpos by simp
  have "1 - (y / r)\<^sup>2 = (r * r - y * y) / (r * r)"
    using rpos by (simp add: power2_eq_square field_simps)
  moreover have "r * r - y * y = x * x + z * z"
    by (simp add: rr)
  ultimately have "1 - (y / r)\<^sup>2 = (x * x + z * z) / (r * r)"
    by simp
  then have "sqrt (1 - (y / r)\<^sup>2) = sqrt (x * x + z * z) / r"
    using rpos by (simp add: real_sqrt_divide)
  then show "r * cos (arcsin (y / r)) = sqrt (x * x + z * z)"
    using bnd rpos by (simp add: cos_arcsin)
qed

text \<open>
  C3. Round trip through spherical coordinates: for every vector \<open>v\<close> other than
  the zero vector, converting \<open>v\<close> to (radius, azimuth, elevation) with
  \<open>cartToSphr\<close> and back with \<open>sphrToCart\<close> gives \<open>v\<close> again, exactly, over the
  real numbers.
\<close>

theorem sphr_round_trip:
  assumes "v \<noteq> (0, 0, 0)"
  shows "sphrToCart (cartToSphr v) = v"
proof -
  obtain x y z where v: "v = (x, y, z)"
    by (cases v) auto
  define r where "r = sqrt (x * x + y * y + z * z)"
  have nz: "(x, y, z) \<noteq> (0, 0, 0)"
    using assms v by simp
  note rc = radial_cos [OF nz, folded r_def]
  have c0: "r * sin (atan2 x z) * cos (arcsin (y / r)) = x"
  proof -
    have "r * sin (atan2 x z) * cos (arcsin (y / r)) = (r * cos (arcsin (y / r))) * sin (atan2 x z)"
      by simp
    then show ?thesis
      by (simp only: rc(3) planar_polar(1))
  qed
  have c2: "r * cos (atan2 x z) * cos (arcsin (y / r)) = z"
  proof -
    have "r * cos (atan2 x z) * cos (arcsin (y / r)) = (r * cos (arcsin (y / r))) * cos (atan2 x z)"
      by simp
    then show ?thesis
      by (simp only: rc(3) planar_polar(2))
  qed
  show ?thesis
    using c0 c2 rc(2) by (simp add: v cartToSphr_def sphrToCart_def norm_v_def Let_def r_def)
qed

theorem sphr_round_trip_witness:
  "(0, 1, 0) \<noteq> ((0, 0, 0) :: vec3) \<and> sphrToCart (cartToSphr (0, 1, 0)) = (0, 1, 0)"
  using sphr_round_trip [of "(0, 1, 0)"] by simp

subsection \<open>What the handlers leave alone\<close>

lemma updateCam_cp [simp]: "cp (updateCam mt st) = cp st"
  by (simp add: updateCam_def Let_def)

lemma updateCam_cf [simp]: "cf (updateCam mt st) = cf st"
  by (simp add: updateCam_def Let_def)

lemma updateCam_m0 [simp]: "m0 (updateCam mt st) = m0 st"
  by (simp add: updateCam_def Let_def)

lemma updateCam_cu [simp]: "cu (updateCam mt st) = cu st"
  by (simp add: updateCam_def Let_def)

lemma handleDrag_cp:
  "cp (handleDrag now rect e st) = cp (orbit (fst (getMouseDelta rect e st)) st)"
  by (simp add: handleDrag_def getMouseDelta_def orbit_def Let_def)

lemma handleDrag_cf: "cf (handleDrag now rect e st) = cf st"
  by (simp add: handleDrag_def getMouseDelta_def orbit_def Let_def)

lemma handleScroll_cp:
  "cp (handleScroll now e st) = (if scroll_d e \<noteq> 0 then cp (dolly (scroll_d e) st) else cp st)"
  by (simp add: handleScroll_def Let_def)

lemma handleScroll_cf: "cf (handleScroll now e st) = cf st"
  by (simp add: handleScroll_def dolly_def Let_def)

subsection \<open>Orbit and dolly\<close>

text \<open>
  C10. Frame effects of orbit and dolly: in every state, \<open>handleDrag\<close> (Orbit) leaves
  the radius \<open>cp[0]\<close> and the focal point \<open>cf\<close> as they were, and \<open>handleScroll\<close>
  (Dolly) leaves the azimuth \<open>cp[1]\<close>, the elevation \<open>cp[2]\<close> and the focal point as
  they were.
\<close>

theorem orbit_dolly_frame:
  "v0 (cp (handleDrag now rect e st)) = v0 (cp st) \<and>
   cf (handleDrag now rect e st) = cf st \<and>
   v1 (cp (handleScroll now' w st)) = v1 (cp st) \<and>
   v2 (cp (handleScroll now' w st)) = v2 (cp st) \<and>
   cf (handleScroll now' w st) = cf st"
  by (simp add: handleDrag_cp handleDrag_cf handleScroll_cp handleScroll_cf orbit_def dolly_def Let_def)

lemma getNDC_y_agrees:
  "rect_top rect \<noteq> rect_bottom rect \<Longrightarrow> getNDC_y rect e = Num (ndc_y (getNDC rect e))"
  by (simp add: getNDC_y_def getNDC_def js_div_def Let_def)

lemma handleDrag_y_agrees:
  assumes "cp_2 s = Num (v2 (cp st))" and "m0_y s = Num (ndc_y (m0 st))"
    and "rect_top rect \<noteq> rect_bottom rect"
  shows "cp_2 (handleDrag_y rect e s) = Num (v2 (cp (handleDrag now rect e st)))"
    and "m0_y (handleDrag_y rect e s) = Num (ndc_y (m0 (handleDrag now rect e st)))"
  using assms
  by (simp_all add: handleDrag_y_def getNDC_y_agrees handleDrag_def getMouseDelta_def orbit_def Let_def)

lemma elevation_ratio:
  fixes x y z :: real
  assumes "(x, y, z) \<noteq> (0, 0, 0)"
  shows "- 1 \<le> y / sqrt (x * x + y * y + z * z) \<and> y / sqrt (x * x + y * y + z * z) \<le> 1"
proof -
  define r where "r = sqrt (x * x + y * y + z * z)"
  have "x * x + y * y + z * z \<noteq> 0"
    using assms by (simp add: add_nonneg_eq_0_iff)
  moreover have "0 \<le> x * x + y * y + z * z"
    by simp
  ultimately have sq: "0 < x * x + y * y + z * z"
    by linarith
  then have rpos: "0 < r"
    by (simp add: r_def)
  have rr: "r * r = x * x + y * y + z * z"
    using sq by (simp add: r_def)
  have "y * y \<le> r * r"
    by (simp add: rr)
  then have "\<bar>y\<bar> \<le> r"
    using rpos by (metis abs_le_square_iff abs_of_pos power2_eq_square)
  then have "- 1 \<le> y / r \<and> y / r \<le> 1"
    using rpos by (auto simp: field_simps abs_le_iff)
  then show ?thesis
    by (simp add: r_def)
qed

lemma js_elevation_agrees:
  assumes "x \<noteq> (0, 0, 0)"
  shows "js_elevation x = Num (v2 (cartToSphr x))"
proof -
  obtain a b c where x: "x = (a, b, c)"
    by (cases x) auto
  have nz: "(a, b, c) \<noteq> (0, 0, 0)"
    using assms x by simp
  have "a * a + b * b + c * c \<noteq> 0"
    using nz by (simp add: add_nonneg_eq_0_iff)
  then have "sqrt (a * a + b * b + c * c) \<noteq> 0"
    by simp
  then show ?thesis
    using elevation_ratio [OF nz]
    by (simp add: x js_elevation_def cartToSphr_def norm_v_def js_div_def Let_def)
qed

lemma js_elevation_zero: "js_elevation (0, 0, 0) = NaN"
  by (simp add: js_elevation_def norm_v_def js_div_def inf_of_def)

lemma handleDrag_y_nan: "cp_2 s = NaN \<Longrightarrow> cp_2 (handleDrag_y rect e s) = NaN"
  by (simp add: handleDrag_y_def Let_def)

text \<open>
  C5 (amended). Elevation clamp: when the elevation \<open>cp[2]\<close> and the stored pointer
  position \<open>m0.y\<close> are finite numbers and the bounding rectangle has a height, the
  elevation after \<open>handleDrag\<close> is a number between \<open>-1.5175\<close> and \<open>1.5175\<close>; when
  it was at a limit and the mouse delta pushes it further out (or not at all), it is at
  that limit afterwards. On such states the elevation is the one that \<open>handleDrag\<close>
  computes over the reals.
\<close>

theorem elevation_clamp:
  assumes "cp_2 s = Num el" and "m0_y s = Num y0" and "rect_top rect \<noteq> rect_bottom rect"
  shows "phiLim = 1.5175 \<and>
         within_limits (cp_2 (handleDrag_y rect e s)) \<and>
         (el = phiLim \<and> ndc_y (getNDC rect e) - y0 \<le> 0
            \<longrightarrow> cp_2 (handleDrag_y rect e s) = Num phiLim) \<and>
         (el = - phiLim \<and> 0 \<le> ndc_y (getNDC rect e) - y0
            \<longrightarrow> cp_2 (handleDrag_y rect e s) = Num (- phiLim)) \<and>
         (\<forall>now st. v2 (cp st) = el \<and> ndc_y (m0 st) = y0 \<longrightarrow>
            cp_2 (handleDrag_y rect e s) = Num (v2 (cp (handleDrag now rect e st))) \<and>
            - phiLim \<le> v2 (cp (handleDrag now rect e st)) \<and>
            v2 (cp (handleDrag now rect e st)) \<le> phiLim)"
proof -
  have lim: "0 \<le> phiLim"
    by (simp add: phiLim_def)
  let ?u = "el - 5 * (ndc_y (getNDC rect e) - y0)"
  have after: "cp_2 (handleDrag_y rect e s) = Num (max (- phiLim) (min phiLim ?u))"
    using assms by (simp add: handleDrag_y_def getNDC_y_agrees Let_def)
  have "phiLim = 1.5175"
    by (simp add: phiLim_def)
  moreover have "within_limits (cp_2 (handleDrag_y rect e s))"
    using lim by (simp add: after)
  moreover have "cp_2 (handleDrag_y rect e s) = Num phiLim"
    if "el = phiLim" "ndc_y (getNDC rect e) - y0 \<le> 0"
    using that lim by (simp add: after max_def min_def)
  moreover have "cp_2 (handleDrag_y rect e s) = Num (- phiLim)"
    if "el = - phiLim" "0 \<le> ndc_y (getNDC rect e) - y0"
    using that lim by (simp add: after max_def min_def)
  moreover have "cp_2 (handleDrag_y rect e s) = Num (v2 (cp (handleDrag now rect e st))) \<and>
            - phiLim \<le> v2 (cp (handleDrag now rect e st)) \<and>
            v2 (cp (handleDrag now rect e st)) \<le> phiLim"
    if "v2 (cp st) = el" "ndc_y (m0 st) = y0" for now st
  proof -
    have "cp_2 (handleDrag_y rect e s) = Num (v2 (cp (handleDrag now rect e st)))"
      using handleDrag_y_agrees(1) [of s st rect e now] assms that by simp
    moreover have "- phiLim \<le> v2 (cp (handleDrag now rect e st))"
      by (simp add: handleDrag_cp orbit_def Let_def)
    moreover have "v2 (cp (handleDrag now rect e st)) \<le> phiLim"
      using lim by (simp add: handleDrag_cp orbit_def Let_def)
    ultimately show ?thesis
      by simp
  qed
  ultimately show ?thesis
    by blast
qed

theorem elevation_clamp_witness:
  "cp_2 \<lparr>cp_2 = Num phiLim, m0_y = Num 0\<rparr> = Num phiLim \<and>
   m0_y \<lparr>cp_2 = Num phiLim, m0_y = Num 0\<rparr> = Num 0 \<and>
   rect_top sample_rect \<noteq> rect_bottom sample_rect \<and>
   ndc_y (getNDC sample_rect (mouse_at 50 40)) - 0 \<le> 0 \<and>
   cp_2 (handleDrag_y sample_rect (mouse_at 50 40) \<lparr>cp_2 = Num phiLim, m0_y = Num 0\<rparr>) = Num phiLim \<and>
   v2 (cp (sample_view (1, 0, phiLim))) = phiLim \<and>
   ndc_y (m0 (sample_view (1, 0, phiLim))) = 0 \<and>
   v2 (cp (handleDrag 100 sample_rect (mouse_at 50 40) (sample_view (1, 0, phiLim)))) = phiLim"
  using elevation_clamp [of "\<lparr>cp_2 = Num phiLim, m0_y = Num 0\<rparr>" phiLim 0 sample_rect "mouse_at 50 40"]
  by (auto simp: sample_rect_def sample_view_def mouse_at_def getNDC_def Let_def)

text \<open>
  C5 as stated, after every Orbit operation, fails on the state that \<open>render\<close> builds
  when the camera position equals the focal point: the elevation is \<open>NaN\<close>, and after
  a \<open>mousedown\<close> and a drag the clamp of \<open>handleDrag\<close> returns \<open>NaN\<close>, which is
  not within the limits.
\<close>

theorem elevation_nan_counterexample:
  "camp degenerate_model = camf degenerate_model \<and>
   render_elevation degenerate_model = NaN \<and>
   cp_2 (render_y degenerate_model) = NaN \<and>
   rect_top sample_rect \<noteq> rect_bottom sample_rect \<and>
   m0_y (mousedown_y sample_rect (mouse_at 50 20) (render_y degenerate_model)) = Num (- 0.2) \<and>
   cp_2 (handleDrag_y sample_rect (mouse_at 50 40)
          (mousedown_y sample_rect (mouse_at 50 20) (render_y degenerate_model))) = NaN \<and>
   \<not> within_limits
        (cp_2 (handleDrag_y sample_rect (mouse_at 50 40)
                (mousedown_y sample_rect (mouse_at 50 20) (render_y degenerate_model))))"
  by (simp add: degenerate_model_def sample_model_def render_y_def render_elevation_def
      js_elevation_zero vadd_def vscl_def handleDrag_y_def mousedown_y_def getNDC_y_def js_div_def
      sample_rect_def mouse_at_def Let_def)

text \<open>
  C4 (amended). Dolly: with \<open>d\<close> the normalised wheel delta, the radius after
  \<open>handleScroll\<close> is \<open>max rlim (r * (1 - dScl * d))\<close>, for \<open>rlim = 0.00001\<close> and
  \<open>dScl = 0.05\<close>, whenever \<open>d\<close> is not zero or the prior radius \<open>r\<close> is at least
  \<open>rlim\<close>. For a prior radius of at least \<open>rlim\<close> and \<open>d > 0\<close>, the new radius is
  below \<open>r\<close>, except that a radius at \<open>rlim\<close> stays there. The witness is the
  scenario \<open>d = 1\<close>, \<open>r = 100\<close>, which gives \<open>95\<close>.
\<close>

theorem dolly_radius:
  "rlim = 0.00001 \<and> dScl = 0.05 \<and>
   (rlim \<le> v0 (cp st) \<or> scroll_d e \<noteq> 0 \<longrightarrow>
      v0 (cp (handleScroll now e st)) = max rlim (v0 (cp st) * (1 - dScl * scroll_d e))) \<and>
   (rlim \<le> v0 (cp st) \<and> 0 < scroll_d e \<longrightarrow>
      (if v0 (cp st) = rlim then v0 (cp (handleScroll now e st)) = rlim
       else v0 (cp (handleScroll now e st)) < v0 (cp st)))"
proof -
  have pos: "0 < rlim" "0 < dScl"
    by (simp_all add: rlim_def dScl_def)
  have shrink: "v0 (cp st) * (1 - dScl * scroll_d e) < v0 (cp st)"
    if "rlim \<le> v0 (cp st)" "0 < scroll_d e"
  proof -
    have "0 < v0 (cp st) * (dScl * scroll_d e)"
      using that pos by simp
    then show ?thesis
      by (simp add: algebra_simps)
  qed
  have "rlim = 0.00001 \<and> dScl = 0.05"
    by (simp add: rlim_def dScl_def)
  moreover have "v0 (cp (handleScroll now e st)) = max rlim (v0 (cp st) * (1 - dScl * scroll_d e))"
    if "rlim \<le> v0 (cp st) \<or> scroll_d e \<noteq> 0"
    using that by (auto simp: handleScroll_cp dolly_def Let_def)
  moreover have "v0 (cp (handleScroll now e st)) = rlim"
    if "v0 (cp st) = rlim" "0 < scroll_d e"
    using that shrink by (simp add: handleScroll_cp dolly_def Let_def max_def)
  moreover have "v0 (cp (handleScroll now e st)) < v0 (cp st)"
    if "rlim \<le> v0 (cp st)" "v0 (cp st) \<noteq> rlim" "0 < scroll_d e"
    using that shrink by (simp add: handleScroll_cp dolly_def Let_def max_def)
  ultimately show ?thesis
    by auto
qed

theorem dolly_radius_witness:
  "rlim \<le> v0 (cp (sample_view (100, 0, 0))) \<and> 0 < scroll_d (wheel_of 40) \<and>
   scroll_d (wheel_of 40) = 1 \<and>
   v0 (cp (handleScroll 100 (wheel_of 40) (sample_view (100, 0, 0)))) = 95 \<and>
   v0 (cp (handleScroll 100 (wheel_of 40) (sample_view (100, 0, 0)))) < v0 (cp (sample_view (100, 0, 0)))"
  using dolly_radius [of "sample_view (100, 0, 0)" "wheel_of 40" 100]
  by (simp add: sample_view_def wheel_of_def scroll_d_def wheelScl_def)

text \<open>
  C4 as stated, for every prior radius \<open>r > 0\<close>, fails below the minimum: from
  \<open>r = 0.000001\<close> a zoom-in step with \<open>d = 1\<close> raises the radius to \<open>rlim\<close>, and
  a wheel event with \<open>d = 0\<close> leaves the radius at \<open>0.000001\<close>, which is not
  \<open>max rlim (r * (1 - dScl * d))\<close>.
\<close>

theorem dolly_below_min_counterexample:
  "0 < v0 (cp (sample_view (0.000001, 0, 0))) \<and>
   0 < scroll_d (wheel_of 40) \<and>
   v0 (cp (sample_view (0.000001, 0, 0))) \<noteq> rlim \<and>
   v0 (cp (handleScroll 100 (wheel_of 40) (sample_view (0.000001, 0, 0)))) = rlim \<and>
   \<not> v0 (cp (handleScroll 100 (wheel_of 40) (sample_view (0.000001, 0, 0))))
       < v0 (cp (sample_view (0.000001, 0, 0))) \<and>
   scroll_d (wheel_of 0) = 0 \<and>
   v0 (cp (handleScroll 100 (wheel_of 0) (sample_view (0.000001, 0, 0)))) = 0.000001 \<and>
   max rlim (0.000001 * (1 - dScl * scroll_d (wheel_of 0))) = rlim"
  by (simp add: sample_view_def wheel_of_def scroll_d_def wheelScl_def handleScroll_cp dolly_def
      Let_def rlim_def dScl_def)

subsection \<open>Pointer coordinates\<close>

text \<open>
  C8 (amended). For a pointer inside a bounding rectangle of positive width and height,
  \<open>getNDC\<close> gives \<open>x\<close> in \<open>[0, 1]\<close>, \<open>0\<close> at the left edge and \<open>1\<close> at the right
  edge, and \<open>y\<close> in \<open>[-1, 0]\<close>, \<open>0\<close> at the top edge and \<open>-1\<close> at the bottom edge.
\<close>

theorem ndc_range:
  assumes "rect_left rect < rect_right rect" and "rect_top rect < rect_bottom rect"
    and "rect_left rect \<le> clientX e" and "clientX e \<le> rect_right rect"
    and "rect_top rect \<le> clientY e" and "clientY e \<le> rect_bottom rect"
  shows "0 \<le> ndc_x (getNDC rect e) \<and> ndc_x (getNDC rect e) \<le> 1 \<and>
         - 1 \<le> ndc_y (getNDC rect e) \<and> ndc_y (getNDC rect e) \<le> 0 \<and>
         (clientX e = rect_left rect \<longrightarrow> ndc_x (getNDC rect e) = 0) \<and>
         (clientX e = rect_right rect \<longrightarrow> ndc_x (getNDC rect e) = 1) \<and>
         (clientY e = rect_top rect \<longrightarrow> ndc_y (getNDC rect e) = 0) \<and>
         (clientY e = rect_bottom rect \<longrightarrow> ndc_y (getNDC rect e) = - 1)"
proof -
  have w: "0 < rect_right rect - rect_left rect" and h: "rect_top rect - rect_bottom rect < 0"
    using assms by simp_all
  have "0 \<le> ndc_x (getNDC rect e)" "ndc_x (getNDC rect e) \<le> 1"
    using w assms by (simp_all add: getNDC_def Let_def)
  moreover have "- 1 \<le> ndc_y (getNDC rect e)" "ndc_y (getNDC rect e) \<le> 0"
    using h assms by (simp_all add: getNDC_def Let_def field_simps)
  moreover have "clientX e = rect_right rect \<longrightarrow> ndc_x (getNDC rect e) = 1"
    using w by (simp add: getNDC_def Let_def)
  moreover have "clientY e = rect_bottom rect \<longrightarrow> ndc_y (getNDC rect e) = - 1"
    using h by (simp add: getNDC_def Let_def field_simps)
  ultimately show ?thesis
    by (simp add: getNDC_def Let_def)
qed

theorem ndc_range_witness:
  "rect_left sample_rect < rect_right sample_rect \<and> rect_top sample_rect < rect_bottom sample_rect \<and>
   rect_left sample_rect \<le> clientX (mouse_at 100 0) \<and> clientX (mouse_at 100 0) \<le> rect_right sample_rect \<and>
   rect_top sample_rect \<le> clientY (mouse_at 100 0) \<and> clientY (mouse_at 100 0) \<le> rect_bottom sample_rect \<and>
   ndc_x (getNDC sample_rect (mouse_at 100 0)) = 1 \<and> ndc_y (getNDC sample_rect (mouse_at 100 0)) = 0"
  using ndc_range [of sample_rect "mouse_at 100 0"]
  by (simp add: sample_rect_def mouse_at_def)

text \<open>
  C8 as stated fails for \<open>y\<close>: at the top edge \<open>y\<close> is \<open>0\<close>, not \<open>1\<close>, and in the
  middle of the canvas it is \<open>-1/2\<close>, outside \<open>[0, 1]\<close>.
\<close>

theorem ndc_y_counterexample:
  "rect_left sample_rect \<le> clientX (mouse_at 50 0) \<and> clientX (mouse_at 50 0) \<le> rect_right sample_rect \<and>
   rect_top sample_rect = clientY (mouse_at 50 0) \<and>
   ndc_y (getNDC sample_rect (mouse_at 50 0)) \<noteq> 1 \<and>
   rect_top sample_rect \<le> clientY (mouse_at 50 50) \<and> clientY (mouse_at 50 50) \<le> rect_bottom sample_rect \<and>
   ndc_y (getNDC sample_rect (mouse_at 50 50)) = - (1 / 2) \<and>
   \<not> 0 \<le> ndc_y (getNDC sample_rect (mouse_at 50 50))"
  by (simp add: sample_rect_def mouse_at_def getNDC_def Let_def)

subsection \<open>Sequences of Orbit steps\<close>

lemma orbits_unclamped:
  "unclamped mds st \<Longrightarrow>
   cp (orbits mds st) =
     (v0 (cp st), v1 (cp st) - (\<Sum>md\<leftarrow>mds. 5 * ndc_x md), v2 (cp st) - (\<Sum>md\<leftarrow>mds. 5 * ndc_y md))"
proof (induction mds arbitrary: st)
  case Nil
  then show ?case
    by (cases "cp st") simp
next
  case (Cons md mds)
  then have step: "cp (orbit md st) = (v0 (cp st), v1 (cp st) - 5 * ndc_x md, v2 (cp st) - 5 * ndc_y md)"
    by (simp add: orbit_def Let_def max_def min_def)
  from Cons have "unclamped mds (orbit md st)"
    by simp
  from Cons.IH [OF this] show ?case
    by (simp add: step algebra_simps)
qed

lemma orbit_cp:
  "cp (orbit md st) =
     (v0 (cp st), v1 (cp st) - 5 * ndc_x md,
      max (- phiLim) (min phiLim (v2 (cp st) - 5 * ndc_y md)))"
  by (simp add: orbit_def Let_def)

lemma orbits_cp_cong: "cp st = cp st' \<Longrightarrow> cp (orbits mds st) = cp (orbits mds st')"
proof (induction mds arbitrary: st st')
  case Nil
  then show ?case by simp
next
  case (Cons md mds)
  have "cp (orbit md st) = cp (orbit md st')"
    by (simp only: orbit_cp Cons.prems)
  from Cons.IH [OF this] show ?case
    by simp
qed

text \<open>
  A sequence of \<open>handleDrag\<close> calls moves the offset as the Orbit steps of its mouse
  deltas do.
\<close>

lemma drags_orbits:
  "cp (run (map (\<lambda>(now, rect, e). Drag now rect e) ds) st) = cp (orbits (drag_deltas ds st) st)"
proof (induction ds arbitrary: st)
  case Nil
  then show ?case by simp
next
  case (Cons d ds)
  obtain now rect e where d: "d = (now, rect, e)"
    by (cases d) auto
  let ?md = "fst (getMouseDelta rect e st)"
  let ?st = "handleDrag now rect e st"
  let ?f = "\<lambda>(now, rect, e). Drag now rect e"
  have "cp (run (map ?f (d # ds)) st) = cp (run (map ?f ds) ?st)"
    by (simp add: d)
  also have "\<dots> = cp (orbits (drag_deltas ds ?st) ?st)"
    by (rule Cons.IH)
  also have "\<dots> = cp (orbits (drag_deltas ds ?st) (orbit ?md st))"
    by (rule orbits_cp_cong) (rule handleDrag_cp)
  also have "\<dots> = cp (orbits (drag_deltas (d # ds) st) st)"
    by (simp add: d)
  finally show ?case .
qed

text \<open>
  C9 (amended). Orbit round trip: a finite sequence of Orbit steps whose azimuth deltas
  sum to zero and whose elevation deltas sum to zero leaves the offset (radius, azimuth,
  elevation) exactly as it was, provided the elevation clamp stays idle throughout, that
  is, every elevation computed on the way is within \<open>[-phiLim, phiLim]\<close>.
\<close>

theorem orbit_net_zero:
  assumes "unclamped mds st"
    and "(\<Sum>md\<leftarrow>mds. 5 * ndc_x md) = 0"
    and "(\<Sum>md\<leftarrow>mds. 5 * ndc_y md) = 0"
  shows "cp (orbits mds st) = cp st"
  using orbits_unclamped [OF assms(1)] assms(2,3) by (cases "cp st") simp

theorem orbit_net_zero_witness:
  "unclamped [\<lparr>ndc_x = 0.1, ndc_y = - 0.2\<rparr>, \<lparr>ndc_x = - 0.1, ndc_y = 0.2\<rparr>] (sample_view (1, 0, 0)) \<and>
   (\<Sum>md\<leftarrow>[\<lparr>ndc_x = 0.1, ndc_y = - 0.2\<rparr>, \<lparr>ndc_x = - 0.1, ndc_y = 0.2\<rparr>]. 5 * ndc_x md) = 0 \<and>
   (\<Sum>md\<leftarrow>[\<lparr>ndc_x = 0.1, ndc_y = - 0.2\<rparr>, \<lparr>ndc_x = - 0.1, ndc_y = 0.2\<rparr>]. 5 * ndc_y md) = 0 \<and>
   cp (orbits [\<lparr>ndc_x = 0.1, ndc_y = - 0.2\<rparr>, \<lparr>ndc_x = - 0.1, ndc_y = 0.2\<rparr>] (sample_view (1, 0, 0)))
     = cp (sample_view (1, 0, 0))"
  using orbit_net_zero [of "[\<lparr>ndc_x = 0.1, ndc_y = - 0.2\<rparr>, \<lparr>ndc_x = - 0.1, ndc_y = 0.2\<rparr>]" "sample_view (1, 0, 0)"]
  by (simp add: sample_view_def orbit_def Let_def phiLim_def)

text \<open>
  C9 as stated fails when a step runs into the clamp: from elevation \<open>0\<close>, a drag of
  \<open>0.4\<close> of the canvas height down and the same drag back have deltas that sum to zero,
  yet the elevation ends at \<open>-0.4825\<close>.
\<close>

theorem orbit_clamped_counterexample:
  "- phiLim < v2 (cp (sample_view (1, 0, 0))) \<and> v2 (cp (sample_view (1, 0, 0))) < phiLim \<and>
   rlim < v0 (cp (sample_view (1, 0, 0))) \<and>
   5 * ndc_x \<lparr>ndc_x = 0, ndc_y = - 0.4\<rparr> + 5 * ndc_x \<lparr>ndc_x = 0, ndc_y = 0.4\<rparr> = 0 \<and>
   5 * ndc_y \<lparr>ndc_x = 0, ndc_y = - 0.4\<rparr> + 5 * ndc_y \<lparr>ndc_x = 0, ndc_y = 0.4\<rparr> = 0 \<and>
   cp (orbits [\<lparr>ndc_x = 0, ndc_y = - 0.4\<rparr>, \<lparr>ndc_x = 0, ndc_y = 0.4\<rparr>] (sample_view (1, 0, 0)))
     = (1, 0, - 0.4825) \<and>
   cp (handleDrag 200 sample_rect (mouse_at 0 0)
        (handleDrag 100 sample_rect (mouse_at 0 40) (sample_view (1, 0, 0))))
     = (1, 0, - 0.4825) \<and>
   cp (sample_view (1, 0, 0)) = (1, 0, 0)"
  by (simp add: sample_view_def sample_rect_def mouse_at_def handleDrag_cp handleDrag_def
      getMouseDelta_def getNDC_def updateCam_def orbit_def Let_def phiLim_def rlim_def)

subsection \<open>Throttled publication\<close>

lemma render_start:
  assumes "render m t0 = Inr st"
  shows "published st = [] \<and> lastMouseT st = t0 \<and> cf st = camf m \<and>
         cp st = cartToSphr (vadd (camp m) (vscl (camf m) (- 1)))"
  using assms
  by (auto simp: render_def createImageData_def Let_def split: prod.splits if_splits)

lemma throttlems_50: "throttlems = 50"
  by (simp add: throttlems_def)

lemma updateCam_published:
  "published (updateCam mt st) =
     (if throttlems < real_of_int (mt - lastMouseT st)
      then published st @ [publication_of mt st] else published st)"
  by (simp add: updateCam_def Let_def publication_of_def)

lemma updateCam_lastMouseT:
  "lastMouseT (updateCam mt st) =
     (if throttlems < real_of_int (mt - lastMouseT st) then mt else lastMouseT st)"
  by (simp add: updateCam_def Let_def)

lemma local_update_clock:
  "lastMouseT (local_update c st) = lastMouseT st \<and> published (local_update c st) = published st"
  by (cases c) (simp_all add: mousedown_def getMouseDelta_def orbit_def pan_def dolly_def Let_def)

lemma handle_local:
  "handle c st = (case attempt c of None \<Rightarrow> local_update c st
                  | Some t \<Rightarrow> updateCam t (local_update c st))"
  by (cases c) (simp_all add: handleDrag_def handleMidDrag_def handleScroll_def Let_def split: prod.splits)

lemma publication_of_cong:
  "cp st = cp st' \<Longrightarrow> cf st = cf st' \<Longrightarrow> publication_of t st = publication_of t st'"
  by (simp add: publication_of_def)

lemma handle_published:
  "published (handle c st) =
     (case attempt c of
        None \<Rightarrow> published st
      | Some t \<Rightarrow>
          if throttlems < real_of_int (t - lastMouseT st)
          then published st @ [publication_of t (handle c st)]
          else published st)"
  by (auto simp: handle_local updateCam_published local_update_clock
      intro: publication_of_cong split: option.splits)

lemma handle_lastMouseT:
  "lastMouseT (handle c st) =
     (case attempt c of
        None \<Rightarrow> lastMouseT st
      | Some t \<Rightarrow> if throttlems < real_of_int (t - lastMouseT st) then t else lastMouseT st)"
  by (simp add: handle_local updateCam_lastMouseT local_update_clock split: option.splits)

lemma handle_camera:
  "cp (handle c st) = cp (local_update c st) \<and> cf (handle c st) = cf (local_update c st) \<and>
   cu (handle c st) = cu (local_update c st) \<and> m0 (handle c st) = m0 (local_update c st)"
  by (simp add: handle_local split: option.splits)

lemma local_update_camera:
  assumes "cp st = cp st'" "cf st = cf st'" "cu st = cu st'" "m0 st = m0 st'"
  shows "cp (local_update c st) = cp (local_update c st') \<and>
         cf (local_update c st) = cf (local_update c st') \<and>
         cu (local_update c st) = cu (local_update c st') \<and>
         m0 (local_update c st) = m0 (local_update c st')"
  using assms
  by (cases c) (simp_all add: mousedown_def getMouseDelta_def orbit_def pan_def dolly_def Let_def)

lemma run_locals_camera:
  assumes "cp st = cp st'" "cf st = cf st'" "cu st = cu st'" "m0 st = m0 st'"
  shows "cp (run cs st) = cp (locals cs st') \<and> cf (run cs st) = cf (locals cs st')"
  using assms
proof (induction cs arbitrary: st st')
  case Nil
  then show ?case by simp
next
  case (Cons c cs)
  have "cp (handle c st) = cp (local_update c st') \<and> cf (handle c st) = cf (local_update c st') \<and>
        cu (handle c st) = cu (local_update c st') \<and> m0 (handle c st) = m0 (local_update c st')"
    using handle_camera [of c st] local_update_camera [OF Cons.prems, of c] by simp
  then show ?case
    using Cons.IH [of "handle c st" "local_update c st'"] by simp
qed

lemma run_snoc: "run (cs @ [c]) st = handle c (run cs st)"
  by (induction cs arbitrary: st) simp_all

lemma spaced_snoc:
  "spaced (ts @ [u]) \<longleftrightarrow> spaced ts \<and> (ts \<noteq> [] \<longrightarrow> throttlems < real_of_int (u - last ts))"
  by (induction ts rule: spaced.induct) auto

lemma handle_inv: "throttle_inv st \<Longrightarrow> throttle_inv (handle c st)"
  by (auto simp: throttle_inv_def handle_published handle_lastMouseT spaced_snoc
      publication_of_def last_map split: option.splits)

lemma run_inv: "throttle_inv st \<Longrightarrow> throttle_inv (run cs st)"
  by (induction cs arbitrary: st) (simp_all add: handle_inv)

lemma spaced_later:
  "spaced (t # ts) \<Longrightarrow> u \<in> set ts \<Longrightarrow> throttlems < real_of_int (u - t)"
proof (induction ts arbitrary: t)
  case Nil
  then show ?case by simp
next
  case (Cons v ts)
  have tv: "throttlems < real_of_int (v - t)" and sp: "spaced (v # ts)"
    using Cons.prems(1) by simp_all
  show ?case
  proof (cases "u = v")
    case True
    then show ?thesis using tv by simp
  next
    case False
    then have "u \<in> set ts"
      using Cons.prems(2) by simp
    from Cons.IH [OF sp this] have "throttlems < real_of_int (u - v)" .
    moreover have "0 < throttlems"
      by (simp add: throttlems_def)
    ultimately show ?thesis
      using tv by simp
  qed
qed

lemma spaced_tail: "spaced (t # ts) \<Longrightarrow> spaced ts"
  by (cases ts) simp_all

lemma spaced_window:
  assumes "spaced ts" and "real_of_int (b - a) \<le> throttlems"
  shows "length (filter (\<lambda>t. a \<le> t \<and> t \<le> b) ts) \<le> 1"
  using assms(1)
proof (induction ts)
  case Nil
  then show ?case by simp
next
  case (Cons t ts)
  show ?case
  proof (cases "a \<le> t \<and> t \<le> b")
    case True
    have "\<not> (a \<le> u \<and> u \<le> b)" if "u \<in> set ts" for u
    proof -
      have "throttlems < real_of_int (u - t)"
        using spaced_later [OF Cons.prems that] .
      with assms(2) have "real_of_int (b - a) < real_of_int (u - t)"
        by simp
      then have "b - a < u - t"
        by simp
      with True show ?thesis
        by simp
    qed
    then have "filter (\<lambda>t. a \<le> t \<and> t \<le> b) ts = []"
      by (simp add: filter_empty_conv)
    with True show ?thesis
      by simp
  next
    case False
    then show ?thesis
      using Cons.IH [OF spaced_tail [OF Cons.prems]] by auto
  qed
qed

text \<open>
  C1. Throttling: let the log of publications be empty at first and let any sequence of
  handler calls \<open>cs\<close> run. The throttle interval is 50 ms. A further call \<open>c\<close>
  that reaches \<open>updateCam\<close> at clock reading \<open>t\<close> publishes exactly when \<open>t\<close> is
  more than the interval after \<open>lastMouseT\<close>, which is the time of the last publication
  once there is one; what it publishes is the camera as the call has just updated it, and
  otherwise nothing is sent. In both cases the camera is the locally updated one, and the
  camera after the run is the one that the local updates alone produce, whatever was
  published. Hence a window of clock readings no longer than the interval holds at most
  one publication.
\<close>

theorem throttled_publication:
  assumes "published st0 = []"
  shows "throttlems = 50 \<and>
    (case attempt c of
       None \<Rightarrow> published (handle c (run cs st0)) = published (run cs st0)
     | Some t \<Rightarrow>
         if throttlems < real_of_int (t - lastMouseT (run cs st0))
         then published (handle c (run cs st0)) =
                published (run cs st0) @ [publication_of t (local_update c (run cs st0))]
         else published (handle c (run cs st0)) = published (run cs st0)) \<and>
    cp (handle c (run cs st0)) = cp (local_update c (run cs st0)) \<and>
    cf (handle c (run cs st0)) = cf (local_update c (run cs st0)) \<and>
    cp (run cs st0) = cp (locals cs st0) \<and>
    cf (run cs st0) = cf (locals cs st0) \<and>
    (published (run cs st0) \<noteq> [] \<longrightarrow>
       lastMouseT (run cs st0) = pub_time (last (published (run cs st0)))) \<and>
    (\<forall>a b. real_of_int (b - a) \<le> throttlems \<longrightarrow>
       length (filter (\<lambda>p. a \<le> pub_time p \<and> pub_time p \<le> b) (published (run cs st0))) \<le> 1)"
proof -
  have "throttle_inv st0"
    using assms by (simp add: throttle_inv_def)
  then have inv: "throttle_inv (run cs st0)"
    by (rule run_inv)
  have pubs: "case attempt c of
       None \<Rightarrow> published (handle c (run cs st0)) = published (run cs st0)
     | Some t \<Rightarrow>
         if throttlems < real_of_int (t - lastMouseT (run cs st0))
         then published (handle c (run cs st0)) =
                published (run cs st0) @ [publication_of t (local_update c (run cs st0))]
         else published (handle c (run cs st0)) = published (run cs st0)"
    using handle_camera [of c "run cs st0"]
    by (auto simp: handle_published intro: publication_of_cong split: option.splits)
  have window: "length (filter (\<lambda>p. a \<le> pub_time p \<and> pub_time p \<le> b) (published (run cs st0))) \<le> 1"
    if "real_of_int (b - a) \<le> throttlems" for a b
  proof -
    have "spaced (map pub_time (published (run cs st0)))"
      using inv by (simp add: throttle_inv_def)
    from spaced_window [OF this that]
    have "length (filter (\<lambda>t. a \<le> t \<and> t \<le> b) (map pub_time (published (run cs st0)))) \<le> 1" .
    then show ?thesis
      by (simp add: filter_map comp_def)
  qed
  show ?thesis
    using pubs window inv handle_camera [of c "run cs st0"] run_locals_camera [of st0 st0 cs]
    by (simp add: throttlems_50 throttle_inv_def)
qed


theorem throttled_publication_witness:
  "published (sample_view (1, 0, 0)) = [] \<and>
   attempt (Drag 120 sample_rect (mouse_at 10 0)) = Some 120 \<and>
   lastMouseT (run [Drag 100 sample_rect (mouse_at 0 0)] (sample_view (1, 0, 0))) = 100 \<and>
   \<not> throttlems < real_of_int (120 - lastMouseT (run [Drag 100 sample_rect (mouse_at 0 0)] (sample_view (1, 0, 0)))) \<and>
   published (run [Drag 100 sample_rect (mouse_at 0 0)] (sample_view (1, 0, 0)))
     = [\<lparr>pub_time = 100, pub_camp = (0, 0, 1), pub_camf = (0, 0, 0)\<rparr>] \<and>
   published (handle (Drag 120 sample_rect (mouse_at 10 0))
               (run [Drag 100 sample_rect (mouse_at 0 0)] (sample_view (1, 0, 0))))
     = published (run [Drag 100 sample_rect (mouse_at 0 0)] (sample_view (1, 0, 0))) \<and>
   cp (handle (Drag 120 sample_rect (mouse_at 10 0))
        (run [Drag 100 sample_rect (mouse_at 0 0)] (sample_view (1, 0, 0))))
     = (1, - 0.5, 0) \<and>
   real_of_int (110 - 60) \<le> throttlems \<and>
   length (filter (\<lambda>p. 60 \<le> pub_time p \<and> pub_time p \<le> 110)
             (published (run [Drag 100 sample_rect (mouse_at 0 0)] (sample_view (1, 0, 0))))) \<le> 1"
  using throttled_publication [of "sample_view (1, 0, 0)" "Drag 120 sample_rect (mouse_at 10 0)"
      "[Drag 100 sample_rect (mouse_at 0 0)]"]
  by (simp add: sample_view_def sample_rect_def mouse_at_def handleDrag_def getMouseDelta_def
      getNDC_def updateCam_def orbit_def Let_def phiLim_def throttlems_def sphrToCart_def vadd_def)

lemma handle_model:
  assumes "attempt c = Some t" and "throttlems < real_of_int (t - lastMouseT st)"
  shows "camp (model (handle c st)) = vadd (sphrToCart (cp (handle c st))) (cf (handle c st)) \<and>
         camf (model (handle c st)) = cf (handle c st)"
  using assms local_update_clock [of c st]
  by (simp add: handle_local updateCam_def Let_def)

text \<open>
  C2. Published position: every publication of a run that starts with an empty log was
  sent by a call of the run that reached \<open>updateCam\<close> more than the throttle interval
  after the last publication. The spherical offset \<open>cp\<close> and the focal point \<open>cf\<close>
  at that moment are the ones that this very call has just updated, and the position
  sent is the focal point plus the Cartesian form of the offset, component by component:
  \<open>(r sin az cos el + cf[0], r sin el + cf[1], r cos az cos el + cf[2])\<close>. The same
  position and focal point are what the call wrote into \<open>camp\<close> and \<open>camf\<close> of the
  model.
\<close>

theorem published_position:
  assumes "published st0 = []" and "p \<in> set (published (run cs st0))"
  shows "\<exists>k<length cs.
           (let before = run (take k cs) st0; s = run (take (Suc k) cs) st0
            in attempt (cs ! k) = Some (pub_time p) \<and>
               throttlems < real_of_int (pub_time p - lastMouseT before) \<and>
               cp s = cp (local_update (cs ! k) before) \<and>
               cf s = cf (local_update (cs ! k) before) \<and>
               pub_camp p = vadd (sphrToCart (cp s)) (cf s) \<and>
               pub_camp p = (v0 (cp s) * sin (v1 (cp s)) * cos (v2 (cp s)) + v0 (cf s),
                             v0 (cp s) * sin (v2 (cp s)) + v1 (cf s),
                             v0 (cp s) * cos (v1 (cp s)) * cos (v2 (cp s)) + v2 (cf s)) \<and>
               pub_camf p = cf s \<and>
               camp (model s) = pub_camp p \<and>
               camf (model s) = pub_camf p)"
  using assms(2)
proof (induction cs arbitrary: p rule: rev_induct)
  case Nil
  then show ?case
    using assms(1) by simp
next
  case (snoc c cs)
  let ?st = "run cs st0"
  show ?case
  proof (cases "p \<in> set (published ?st)")
    case True
    from snoc.IH [OF True] obtain k where k: "k < length cs"
      and body: "let before = run (take k cs) st0; s = run (take (Suc k) cs) st0
            in attempt (cs ! k) = Some (pub_time p) \<and>
               throttlems < real_of_int (pub_time p - lastMouseT before) \<and>
               cp s = cp (local_update (cs ! k) before) \<and>
               cf s = cf (local_update (cs ! k) before) \<and>
               pub_camp p = vadd (sphrToCart (cp s)) (cf s) \<and>
               pub_camp p = (v0 (cp s) * sin (v1 (cp s)) * cos (v2 (cp s)) + v0 (cf s),
                             v0 (cp s) * sin (v2 (cp s)) + v1 (cf s),
                             v0 (cp s) * cos (v1 (cp s)) * cos (v2 (cp s)) + v2 (cf s)) \<and>
               pub_camf p = cf s \<and>
               camp (model s) = pub_camp p \<and>
               camf (model s) = pub_camf p"
      by blast
    have eqs: "(cs @ [c]) ! k = cs ! k" "take (Suc k) (cs @ [c]) = take (Suc k) cs"
      "take k (cs @ [c]) = take k cs" "k < length (cs @ [c])"
      using k by (simp_all add: nth_append)
    show ?thesis
      by (rule exI [of _ k]) (simp only: eqs body simp_thms)
  next
    case False
    with snoc.prems have new: "p \<in> set (published (handle c ?st))"
      by (simp add: run_snoc)
    from new False obtain t where t: "attempt c = Some t"
      and due: "throttlems < real_of_int (t - lastMouseT ?st)"
      and p: "p = publication_of t (handle c ?st)"
      by (auto simp: handle_published split: option.splits if_splits)
    have here: "(cs @ [c]) ! length cs = c" "take (length cs) (cs @ [c]) = cs"
      "run (take (Suc (length cs)) (cs @ [c])) st0 = handle c ?st"
      by (simp_all add: run_snoc)
    have pos: "pub_camp p = vadd (sphrToCart (cp (handle c ?st))) (cf (handle c ?st))"
      and foc: "pub_camf p = cf (handle c ?st)" and tm: "pub_time p = t"
      by (simp_all add: p publication_of_def)
    have comps: "vadd (sphrToCart (cp (handle c ?st))) (cf (handle c ?st)) =
        (v0 (cp (handle c ?st)) * sin (v1 (cp (handle c ?st))) * cos (v2 (cp (handle c ?st)))
           + v0 (cf (handle c ?st)),
         v0 (cp (handle c ?st)) * sin (v2 (cp (handle c ?st))) + v1 (cf (handle c ?st)),
         v0 (cp (handle c ?st)) * cos (v1 (cp (handle c ?st))) * cos (v2 (cp (handle c ?st)))
           + v2 (cf (handle c ?st)))"
      by (simp add: vadd_def sphrToCart_def)
    have "length cs < length (cs @ [c]) \<and>
          (let before = run (take (length cs) (cs @ [c])) st0;
               s = run (take (Suc (length cs)) (cs @ [c])) st0
            in attempt ((cs @ [c]) ! length cs) = Some (pub_time p) \<and>
               throttlems < real_of_int (pub_time p - lastMouseT before) \<and>
               cp s = cp (local_update ((cs @ [c]) ! length cs) before) \<and>
               cf s = cf (local_update ((cs @ [c]) ! length cs) before) \<and>
               pub_camp p = vadd (sphrToCart (cp s)) (cf s) \<and>
               pub_camp p = (v0 (cp s) * sin (v1 (cp s)) * cos (v2 (cp s)) + v0 (cf s),
                             v0 (cp s) * sin (v2 (cp s)) + v1 (cf s),
                             v0 (cp s) * cos (v1 (cp s)) * cos (v2 (cp s)) + v2 (cf s)) \<and>
               pub_camf p = cf s \<and>
               camp (model s) = pub_camp p \<and>
               camf (model s) = pub_camf p)"
      unfolding Let_def here
      using t due handle_camera [of c ?st] handle_model [OF t due] pos foc tm comps
      by simp
    then show ?thesis
      by (rule exI [of _ "length cs"])
  qed
qed

lemma zooms_run:
  "published (run zooms off_centre_view) =
     [\<lparr>pub_time = 100, pub_camp = (2.9, 2, 3), pub_camf = (1, 2, 3)\<rparr>,
      \<lparr>pub_time = 200, pub_camp = (2.71475, 2, 3), pub_camf = (1, 2, 3)\<rparr>]"
  by (simp add: zooms_def off_centre_view_def sample_view_def wheel_of_def handleScroll_def
      scroll_d_def wheelScl_def dolly_def dScl_def rlim_def updateCam_def throttlems_def
      sphrToCart_def vadd_def Let_def)

theorem published_position_witness:
  "published off_centre_view = [] \<and>
   \<lparr>pub_time = 200, pub_camp = (2.71475, 2, 3), pub_camf = (1, 2, 3)\<rparr>
      \<in> set (published (run zooms off_centre_view)) \<and>
   attempt (zooms ! 2) = Some 200 \<and>
   cp (run (take 2 zooms) off_centre_view) = (1.805, pi / 2, 0) \<and>
   cp (run (take (Suc 2) zooms) off_centre_view) = (1.71475, pi / 2, 0) \<and>
   cf (run (take (Suc 2) zooms) off_centre_view) = (1, 2, 3) \<and>
   vadd (sphrToCart (cp (run (take (Suc 2) zooms) off_centre_view)))
        (cf (run (take (Suc 2) zooms) off_centre_view)) = (2.71475, 2, 3) \<and>
   camp (model (run (take (Suc 2) zooms) off_centre_view)) = (2.71475, 2, 3) \<and>
   camf (model (run (take (Suc 2) zooms) off_centre_view)) = (1, 2, 3)"
  using published_position [of off_centre_view
      "\<lparr>pub_time = 200, pub_camp = (2.71475, 2, 3), pub_camf = (1, 2, 3)\<rparr>" zooms]
  by (simp add: zooms_run)
    (simp add: zooms_def off_centre_view_def sample_view_def wheel_of_def handleScroll_def
      scroll_d_def wheelScl_def dolly_def dScl_def rlim_def updateCam_def throttlems_def
      sphrToCart_def vadd_def Let_def numeral_2_eq_2)

subsection \<open>Painting frames\<close>

lemma copyPixels_length [simp]: "length (copyPixels fr i data) = length data"
proof (induction fr i data rule: copyPixels.induct)
  case (1 fr i data)
  show ?case
  proof (cases "i < length data")
    case True
    with "1" show ?thesis
      by (subst copyPixels.simps) simp
  next
    case False
    then show ?thesis
      by (subst copyPixels.simps) simp
  qed
qed

lemma copyPixels_nth:
  assumes "4 dvd i" and "4 dvd length data" and "k < length data"
  shows "copyPixels fr i data ! k =
           (if k < i then data ! k else if k mod 4 = 3 then 255 else frame_at fr k)"
  using assms
proof (induction fr i data rule: copyPixels.induct)
  case (1 fr i data)
  show ?case
  proof (cases "i < length data")
    case False
    with "1.prems" show ?thesis
      by (subst copyPixels.simps) simp
  next
    case True
    let ?data' = "data[i + 0 := frame_at fr (i + 0), i + 1 := frame_at fr (i + 1),
                       i + 2 := frame_at fr (i + 2), i + 3 := 255]"
    have room: "i + 4 \<le> length data"
      using True "1.prems"(1,2) by (auto elim!: dvdE)
    have step: "copyPixels fr i data = copyPixels fr (i + 4) ?data'"
      using True by (subst copyPixels.simps) simp
    have ih: "copyPixels fr (i + 4) ?data' ! k =
                (if k < i + 4 then ?data' ! k else if k mod 4 = 3 then 255 else frame_at fr k)"
      using "1.IH" [OF True] "1.prems" by simp
    have upd: "?data' ! k = (if k < i then data ! k else if k mod 4 = 3 then 255 else frame_at fr k)"
      if "k < i + 4"
    proof -
      obtain q where q: "i = 4 * q"
        using "1.prems"(1) by (auto elim: dvdE)
      have m: "(4 * q) mod 4 = 0" "Suc (4 * q) mod 4 = 1" "Suc (Suc (4 * q)) mod 4 = 2"
        "(4 * q + 3) mod 4 = 3"
        by presburger+
      from that consider "k < i" | "k = i" | "k = i + 1" | "k = i + 2" | "k = i + 3"
        by linarith
      then show ?thesis
        using room by cases (simp_all add: q m)
    qed
    show ?thesis
    proof (cases "k < i + 4")
      case True
      have "copyPixels fr i data ! k = ?data' ! k"
        by (simp only: step ih True if_True)
      then show ?thesis
        by (simp only: upd [OF True])
    next
      case False
      have "copyPixels fr i data ! k = (if k mod 4 = 3 then 255 else frame_at fr k)"
        by (simp only: step ih False if_False)
      moreover have "\<not> k < i"
        using False by simp
      ultimately show ?thesis
        by simp
    qed
  qed
qed

lemma copyPixels_painted: "painted fr n (copyPixels fr 0 (replicate (n * 4) 0))"
proof -
  have nth: "copyPixels fr 0 (replicate (n * 4) 0) ! k = (if k mod 4 = 3 then 255 else frame_at fr k)"
    if "k < n * 4" for k
    using copyPixels_nth [of 0 "replicate (n * 4) 0" k fr] that by simp
  have "copyPixels fr 0 (replicate (n * 4) 0) ! (4 * i) = frame_at fr (4 * i) \<and>
        copyPixels fr 0 (replicate (n * 4) 0) ! (4 * i + 1) = frame_at fr (4 * i + 1) \<and>
        copyPixels fr 0 (replicate (n * 4) 0) ! (4 * i + 2) = frame_at fr (4 * i + 2) \<and>
        copyPixels fr 0 (replicate (n * 4) 0) ! (4 * i + 3) = 255"
    if "i < n" for i
  proof -
    have lt: "4 * i < n * 4" "4 * i + 1 < n * 4" "4 * i + 2 < n * 4" "4 * i + 3 < n * 4"
      using that by simp_all
    have m: "(4 * i) mod 4 \<noteq> 3" "(4 * i + 1) mod 4 \<noteq> 3" "(4 * i + 2) mod 4 \<noteq> 3"
      "(4 * i + 3) mod 4 = 3"
      by presburger+
    show ?thesis
      by (simp only: nth [OF lt(1)] nth [OF lt(2)] nth [OF lt(3)] nth [OF lt(4)] m if_True if_False
          simp_thms)
  qed
  then show ?thesis
    by (simp add: painted_def)
qed

lemma frameChange_painted:
  assumes "0 < canvas_width st" and "0 < canvas_height st"
  shows "\<exists>img. frameChange st = Inr (st\<lparr>canvas_image := img\<rparr>) \<and>
               painted (frame (model st)) (canvas_width st * canvas_height st) img"
proof -
  let ?img = "copyPixels (frame (model st)) 0 (replicate (canvas_width st * canvas_height st * 4) 0)"
  have "frameChange st = Inr (st\<lparr>canvas_image := ?img\<rparr>)"
    using assms by (simp add: frameChange_def createImageData_def)
  then show ?thesis
    using copyPixels_painted by blast
qed

text \<open>
  C7 (amended). \<open>frameChange\<close> does not validate the buffer: on a canvas of at least one
  pixel it never fails and always replaces the displayed image, whatever the byte count
  of the frame. Pixel \<open>i\<close> takes the bytes \<open>4i\<close>, \<open>4i+1\<close>, \<open>4i+2\<close> of the buffer,
  \<open>0\<close> where the buffer has no such byte, and alpha \<open>255\<close>; bytes beyond
  \<open>width * height * 4\<close> are not looked at; the rest of the state is as it was.
\<close>

theorem frame_unvalidated:
  assumes "0 < canvas_width st" and "0 < canvas_height st"
  shows "\<exists>img. frameChange st = Inr (st\<lparr>canvas_image := img\<rparr>) \<and>
               length img = canvas_width st * canvas_height st * 4 \<and>
               (\<forall>i < canvas_width st * canvas_height st.
                  img ! (4 * i) = frame_at (frame (model st)) (4 * i) \<and>
                  img ! (4 * i + 1) = frame_at (frame (model st)) (4 * i + 1) \<and>
                  img ! (4 * i + 2) = frame_at (frame (model st)) (4 * i + 2) \<and>
                  img ! (4 * i + 3) = 255)"
  using frameChange_painted [OF assms] unfolding painted_def .


lemma copy_one_pixel: "copyPixels [a, b, c, d] 0 (replicate 4 0) = [a, b, c, 255]"
  by (simp add: copyPixels.simps frame_at_def numeral_eq_Suc)

lemma three_not_aligned: "\<not> 4 dvd Suc (Suc (Suc 0))"
  by presburger

lemma copy_short_pixel: "copyPixels [a, b, c] 0 (replicate 4 0) = [a, b, c, 255]"
  by (simp add: copyPixels.simps frame_at_def numeral_eq_Suc)

theorem frame_unvalidated_witness:
  "0 < canvas_width (view_with_frame [7, 8, 9, 10, 11]) \<and>
   0 < canvas_height (view_with_frame [7, 8, 9, 10, 11]) \<and>
   frameChange (view_with_frame [7, 8, 9, 10, 11]) =
     Inr ((view_with_frame [7, 8, 9, 10, 11])\<lparr>canvas_image := [7, 8, 9, 255]\<rparr>)"
  using frame_unvalidated [of "view_with_frame [7, 8, 9, 10, 11]"]
  by (simp add: view_with_frame_def sample_view_def sample_model_def frameChange_def
      createImageData_def copyPixels.simps frame_at_def numeral_eq_Suc)

text \<open>
  C7 as stated fails: a frame of three bytes, neither a multiple of four nor the size of
  the one-pixel canvas, is painted over the previous image, and no error is returned.
\<close>

theorem frame_unvalidated_counterexample:
  "length (frame (model (view_with_frame [7, 8, 9]))) \<noteq>
     canvas_width (view_with_frame [7, 8, 9]) * canvas_height (view_with_frame [7, 8, 9]) * 4 \<and>
   \<not> 4 dvd length (frame (model (view_with_frame [7, 8, 9]))) \<and>
   frameChange (view_with_frame [7, 8, 9]) = Inr ((view_with_frame [7, 8, 9])\<lparr>canvas_image := [7, 8, 9, 255]\<rparr>) \<and>
   canvas_image (view_with_frame [7, 8, 9]) = [1, 2, 3, 255] \<and>
   canvas_image (view_with_frame [7, 8, 9]) \<noteq> [7, 8, 9, 255]"
  by (simp add: view_with_frame_def sample_view_def sample_model_def frameChange_def
      createImageData_def copy_short_pixel three_not_aligned)

lemma painted_opaque_copy:
  assumes "painted fr n img" and "length fr = n * 4"
  shows "opaque_copy fr n img"
proof -
  have "4 * i < length fr \<and> 4 * i + 1 < length fr \<and> 4 * i + 2 < length fr" if "i < n" for i
    using that assms(2) by simp
  then show ?thesis
    using assms(1) by (simp add: painted_def opaque_copy_def frame_at_def)
qed

text \<open>
  C6. Frame conversion: for a buffer of \<open>width * height * 4\<close> bytes on a canvas of at
  least one pixel, the image that \<open>frameChange\<close> displays, and the one that \<open>render\<close>
  displays first, have red, green and blue of every pixel \<open>i\<close> equal to the bytes
  \<open>4i\<close>, \<open>4i+1\<close>, \<open>4i+2\<close> of the buffer and alpha \<open>255\<close>, whatever byte
  \<open>4i+3\<close> of the buffer is.
\<close>

theorem frame_conversion:
  assumes "0 < canvas_width st" and "0 < canvas_height st"
    and "length (frame (model st)) = canvas_width st * canvas_height st * 4"
    and "resolution m = (w, h)" and "0 < w" and "0 < h"
    and "length (frame m) = w * h * 4"
  shows "(\<exists>img. frameChange st = Inr (st\<lparr>canvas_image := img\<rparr>) \<and>
                opaque_copy (frame (model st)) (canvas_width st * canvas_height st) img) \<and>
         (\<exists>st'. render m t0 = Inr st' \<and> canvas_width st' = w \<and> canvas_height st' = h \<and>
                opaque_copy (frame m) (w * h) (canvas_image st'))"
proof -
  have "\<exists>img. frameChange st = Inr (st\<lparr>canvas_image := img\<rparr>) \<and>
              opaque_copy (frame (model st)) (canvas_width st * canvas_height st) img"
    using frameChange_painted [OF assms(1,2)] painted_opaque_copy [OF _ assms(3)] by blast
  moreover have "opaque_copy (frame m) (w * h) (copyPixels (frame m) 0 (replicate (w * h * 4) 0))"
    using copyPixels_painted assms(7) by (rule painted_opaque_copy)
  then have "\<exists>st'. render m t0 = Inr st' \<and> canvas_width st' = w \<and> canvas_height st' = h \<and>
                   opaque_copy (frame m) (w * h) (canvas_image st')"
    using assms(4,5,6) by (simp add: render_def createImageData_def Let_def)
  ultimately show ?thesis
    by blast
qed

theorem frame_conversion_witness:
  "0 < canvas_width (view_with_frame [7, 8, 9, 10]) \<and> 0 < canvas_height (view_with_frame [7, 8, 9, 10]) \<and>
   length (frame (model (view_with_frame [7, 8, 9, 10]))) =
     canvas_width (view_with_frame [7, 8, 9, 10]) * canvas_height (view_with_frame [7, 8, 9, 10]) * 4 \<and>
   resolution sample_model = (1, 1) \<and> length (frame sample_model) = 1 * 1 * 4 \<and>
   frameChange (view_with_frame [7, 8, 9, 10]) =
     Inr ((view_with_frame [7, 8, 9, 10])\<lparr>canvas_image := [7, 8, 9, 255]\<rparr>) \<and>
   render sample_model 0 = Inr (sample_view (1, 0, 0))"
  using frame_conversion [of "view_with_frame [7, 8, 9, 10]" sample_model 1 1 0]
  by (simp add: view_with_frame_def sample_view_def sample_model_def frameChange_def render_def
      createImageData_def copy_one_pixel cartToSphr_def norm_v_def atan2_def vadd_def vscl_def Let_def)

end
